theory Spec2Isabelle
  imports Main "HOL-Library.Sublist"
begin

section \<open>Data model of the playground (WalletDemo)\<close>

text \<open>
  The embedding follows the \<^verbatim>\<open>WalletDemo\<close> component of the developer playground.
  React state and refs become fields of one record that every operation takes and returns;
  the browser's \<^verbatim>\<open>localStorage\<close> is a field of that record. Values the code reads from its
  environment (\<^verbatim>\<open>crypto.randomUUID()\<close>, \<^verbatim>\<open>new Date()\<close>, \<^verbatim>\<open>JSON.stringify\<close>, \<^verbatim>\<open>JSON.parse\<close>, the
  outcome of an awaited SDK call) are arguments. Console output is not part of the model.
\<close>

datatype log_type = Info | Success | Error | Pending

datatype tx_type = Transfer | Subscription | Airdrop

datatype tx_status = TxSuccess | TxFailed

record StoredTransaction =
  signature :: string
  type :: tx_type
  timestamp :: string
  status :: tx_status
  details :: "string option"

record LogEntry =
  id :: string
  timestamp :: nat
  type :: log_type
  message :: string
  details :: "string option"

subsection \<open>The browser's key-value store\<close>

datatype js_error = SecurityError | QuotaExceededError

text \<open>
  \<open>window_defined\<close> is \<^verbatim>\<open>typeof window !== 'undefined'\<close>; \<open>items\<close> is the content of
  \<^verbatim>\<open>localStorage\<close>; \<open>getItem_throws\<close> and \<open>setItem_throws\<close> say for which calls the
  browser raises (storage access denied, quota exceeded).
\<close>

record browser =
  window_defined :: bool
  items :: "string \<rightharpoonup> string"
  getItem_throws :: "string \<Rightarrow> bool"
  setItem_throws :: "string \<Rightarrow> string \<Rightarrow> bool"

definition getItem :: "browser \<Rightarrow> string \<Rightarrow> js_error + string option" where
  "getItem w key = (if getItem_throws w key then Inl SecurityError else Inr (items w key))"

definition setItem :: "browser \<Rightarrow> string \<Rightarrow> string \<Rightarrow> js_error + browser" where
  "setItem w key v =
     (if setItem_throws w key v then Inl QuotaExceededError
      else Inr (w\<lparr>items := (items w)(key \<mapsto> v)\<rparr>))"


definition STORAGE_KEYS_LOGS :: string where
  "STORAGE_KEYS_LOGS = ''lazorkit_logs''"

definition STORAGE_KEYS_TRANSACTIONS :: string where
  "STORAGE_KEYS_TRANSACTIONS = ''lazorkit_transactions''"

definition STORAGE_KEYS_LAST_WALLET :: string where
  "STORAGE_KEYS_LAST_WALLET = ''lazorkit_last_wallet''"

text \<open>
  \<^verbatim>\<open>loadFromStorage<T>(key, defaultValue)\<close>. \<open>parse\<close> is \<^verbatim>\<open>JSON.parse\<close> at the type read,
  \<open>None\<close> when it throws. A stored empty string is falsy, so it yields the default too.
\<close>

definition loadFromStorage :: "(string \<Rightarrow> 'a option) \<Rightarrow> browser \<Rightarrow> string \<Rightarrow> 'a \<Rightarrow> 'a" where
  "loadFromStorage parse w key defaultValue =
     (if \<not> window_defined w then defaultValue
      else case getItem w key of
             Inl e \<Rightarrow> defaultValue
           | Inr None \<Rightarrow> defaultValue
           | Inr (Some stored) \<Rightarrow>
               (if stored = [] then defaultValue
                else case parse stored of None \<Rightarrow> defaultValue | Some v \<Rightarrow> v))"

text \<open>\<^verbatim>\<open>saveToStorage<T>(key, value)\<close>. \<open>stringify\<close> is \<^verbatim>\<open>JSON.stringify\<close> at the type written.\<close>

definition saveToStorage :: "('a \<Rightarrow> string) \<Rightarrow> browser \<Rightarrow> string \<Rightarrow> 'a \<Rightarrow> browser" where
  "saveToStorage stringify w key v =
     (if \<not> window_defined w then w
      else case setItem w key (stringify v) of Inl e \<Rightarrow> w | Inr w' \<Rightarrow> w')"

subsection \<open>Component state\<close>

datatype timer = UnlockAirdrop | UnlockSigning | UnlockSending | UnlockSubscribing

text \<open>
  The \<^verbatim>\<open>useState\<close> cells and \<^verbatim>\<open>useRef\<close> cells of \<^verbatim>\<open>WalletDemo\<close>, the store, and the host's
  timer queue: \<open>clock\<close> is the time in milliseconds and \<open>timers\<close> the callbacks registered
  with \<^verbatim>\<open>setTimeout\<close>, each with the time it becomes due.
\<close>

record demo =
  balance :: nat
  logs :: "LogEntry list"
  transactions :: "StoredTransaction list"
  isSigning :: bool
  isSending :: bool
  isAirdropping :: bool
  isSubscribing :: bool
  lastSignature :: "string option"
  selectedPlan :: "string option"
  isSigningRef :: bool
  isSendingRef :: bool
  isSubscribingRef :: bool
  isAirdropRef :: bool
  localStorage :: browser
  clock :: nat
  timers :: "(nat \<times> timer) list"

subsection \<open>Log ledger\<close>

text \<open>The state initialiser of \<open>logs\<close>: load, then drop pending entries.\<close>

definition initial_logs :: "(string \<Rightarrow> LogEntry list option) \<Rightarrow> browser \<Rightarrow> LogEntry list" where
  "initial_logs parse w =
     (let loaded = loadFromStorage parse w STORAGE_KEYS_LOGS [];
          filtered = filter (\<lambda>log. type log \<noteq> Pending) loaded
      in filtered)"

definition clearPendingLogs :: "(LogEntry list \<Rightarrow> string) \<Rightarrow> demo \<Rightarrow> demo" where
  "clearPendingLogs stringify s =
     (let prev = logs s;
          pendingCount = length (filter (\<lambda>log. type log = Pending) prev)
      in if pendingCount = 0 then s
         else (let filtered = filter (\<lambda>log. type log \<noteq> Pending) prev
               in s\<lparr>logs := filtered,
                    localStorage := saveToStorage stringify (localStorage s) STORAGE_KEYS_LOGS filtered\<rparr>))"

text \<open>
  \<^verbatim>\<open>addLog(type, message, details)\<close>; \<open>logId\<close> is the value of \<^verbatim>\<open>crypto.randomUUID()\<close> and
  \<open>now\<close> the value of \<^verbatim>\<open>new Date()\<close>.
\<close>

definition addLog ::
  "(LogEntry list \<Rightarrow> string) \<Rightarrow> string \<Rightarrow> nat \<Rightarrow> log_type \<Rightarrow> string \<Rightarrow> string option \<Rightarrow> demo \<Rightarrow> demo" where
  "addLog stringify logId now type' message' details' s =
     (let logEntry = \<lparr>id = logId, timestamp = now, type = type', message = message',
                       details = details'\<rparr>;
          prev = logs s;
          shouldFilter = (type' = Success \<or> type' = Error \<or> type' = Info);
          baseLogs =
            (if shouldFilter then
               (let pendingCount = length (filter (\<lambda>log. type log = Pending) prev)
                in if pendingCount > 0 then filter (\<lambda>log. type log \<noteq> Pending) prev else prev)
             else prev);
          newLogs = take 30 (logEntry # baseLogs);
          logsToSave = filter (\<lambda>l. type l \<noteq> Pending) newLogs
      in s\<lparr>logs := newLogs,
           localStorage := saveToStorage stringify (localStorage s) STORAGE_KEYS_LOGS logsToSave\<rparr>)"

text \<open>The Clear button of the activity log: \<^verbatim>\<open>setLogs([])\<close>.\<close>

definition clear_log_click :: "demo \<Rightarrow> demo" where
  "clear_log_click s = s\<lparr>logs := []\<rparr>"

text \<open>The operations on the log ledger, and a run of them in call order.\<close>

datatype log_op =
    AddLog string nat log_type string "string option"
  | ClearPendingLogs
  | ClearLog

fun log_step :: "(LogEntry list \<Rightarrow> string) \<Rightarrow> log_op \<Rightarrow> demo \<Rightarrow> demo" where
  "log_step stringify (AddLog logId now type' message' details') s =
     addLog stringify logId now type' message' details' s"
| "log_step stringify ClearPendingLogs s = clearPendingLogs stringify s"
| "log_step stringify ClearLog s = clear_log_click s"

fun log_run :: "(LogEntry list \<Rightarrow> string) \<Rightarrow> log_op list \<Rightarrow> demo \<Rightarrow> demo" where
  "log_run stringify [] s = s"
| "log_run stringify (c # cs) s = log_run stringify cs (log_step stringify c s)"

text \<open>What a store holds under the log key: nothing, or the text of a list without pending entries.\<close>

definition persisted_without_pending :: "(LogEntry list \<Rightarrow> string) \<Rightarrow> browser \<Rightarrow> bool" where
  "persisted_without_pending stringify w =
     (case items w STORAGE_KEYS_LOGS of
        None \<Rightarrow> True
      | Some text \<Rightarrow> (\<exists>xs. text = stringify xs \<and> filter (\<lambda>l. type l = Pending) xs = []))"

subsection \<open>The activity log of PlaygroundSection\<close>

text \<open>The \<^verbatim>\<open>addLog\<close> of the \<^verbatim>\<open>PlaygroundSection\<close> component: in memory only, capacity 20.\<close>

definition addLog_PlaygroundSection ::
  "string \<Rightarrow> nat \<Rightarrow> log_type \<Rightarrow> string \<Rightarrow> string option \<Rightarrow> LogEntry list \<Rightarrow> LogEntry list" where
  "addLog_PlaygroundSection logId now type' message' details' prev =
     (let entry = \<lparr>id = logId, timestamp = now, type = type', message = message',
                    details = details'\<rparr>
      in take 20 (entry # prev))"

subsection \<open>Transaction history ledger\<close>






subsection \<open>The wallet SDK hook and the timer queue\<close>

text \<open>
  What \<^verbatim>\<open>useWallet()\<close> gives the component: \<open>smartWallet\<close> is \<^verbatim>\<open>wallet?.smartWallet\<close>
  (\<open>None\<close> when undefined), and the two flags say whether \<^verbatim>\<open>signMessage\<close> and
  \<^verbatim>\<open>signAndSendTransaction\<close> are defined.
\<close>

record sdk =
  smartWallet :: "string option"
  isConnecting :: bool
  sdkSigning :: bool
  signMessage_defined :: bool
  signAndSendTransaction_defined :: bool

definition smartWalletAddress :: "sdk \<Rightarrow> string option" where
  "smartWalletAddress k =
     (case smartWallet k of None \<Rightarrow> None | Some a \<Rightarrow> if a = [] then None else Some a)"

definition isConnected :: "sdk \<Rightarrow> bool" where
  "isConnected k = (case smartWallet k of None \<Rightarrow> False | Some a \<Rightarrow> a \<noteq> [])"

definition smartWalletPubkey :: "sdk \<Rightarrow> string option" where
  "smartWalletPubkey k = smartWalletAddress k"

text \<open>A value thrown by an awaited call: an \<^verbatim>\<open>Error\<close> with its message.\<close>

datatype thrown = Thrown string

fun error_message :: "thrown \<Rightarrow> string" where
  "error_message (Thrown m) = m"




subsection \<open>Handlers\<close>

text \<open>
  An \<^verbatim>\<open>async\<close> handler is cut at its \<^verbatim>\<open>await\<close>: \<open>_begin\<close> is the synchronous part up to the
  awaited call, \<open>_settle\<close> the part that runs once the call has settled, with the outcome
  (\<open>Inl\<close> the thrown value) as an argument. A handler that returns before its first
  \<^verbatim>\<open>await\<close> is all in \<open>_begin\<close>. Each \<^verbatim>\<open>addLog\<close> call takes the identifier and the time it
  reads.
\<close>

definition handleConnect_begin :: "(LogEntry list \<Rightarrow> string) \<Rightarrow> string \<Rightarrow> nat \<Rightarrow> demo \<Rightarrow> demo" where
  "handleConnect_begin stringify logId now s =
     addLog stringify logId now Pending ''Opening passkey authentication...'' None
       (s\<lparr>logs := []\<rparr>)"

text \<open>
  The connect button: it is rendered only while no wallet is connected, with
  \<^verbatim>\<open>onClick={handleConnect}\<close> and \<^verbatim>\<open>disabled={isConnecting}\<close>; a click on a disabled or absent
  button runs no handler.
\<close>

definition connect_button_click ::
  "(LogEntry list \<Rightarrow> string) \<Rightarrow> sdk \<Rightarrow> string \<Rightarrow> nat \<Rightarrow> demo \<Rightarrow> demo" where
  "connect_button_click stringify k logId now s =
     (if isConnected k \<or> isConnecting k then s else handleConnect_begin stringify logId now s)"

text \<open>\<open>result\<close> is \<^verbatim>\<open>result?.smartWallet\<close> of the value \<^verbatim>\<open>connect()\<close> resolved to.\<close>

definition handleConnect_settle ::
  "(LogEntry list \<Rightarrow> string) \<Rightarrow> thrown + string option \<Rightarrow> string \<Rightarrow> nat \<Rightarrow> string \<Rightarrow> nat
     \<Rightarrow> demo \<Rightarrow> demo" where
  "handleConnect_settle stringify outcome logId1 now1 logId2 now2 s =
     clearPendingLogs stringify
       (case outcome of
          Inr result \<Rightarrow>
            (let s1 = addLog stringify logId1 now1 Success ''Connected successfully!'' None s
             in case result of
                  None \<Rightarrow> s1
                | Some w \<Rightarrow>
                    if w = [] then s1
                    else addLog stringify logId2 now2 Info
                           (''Wallet: '' @ take 8 w @ ''...'' @ drop (length w - 4) w) None s1)
        | Inl err \<Rightarrow>
            addLog stringify logId1 now1 Error ''Connection failed'' (Some (error_message err)) s)"

text \<open>
  \<^verbatim>\<open>handleDisconnect\<close> has no \<^verbatim>\<open>try\<close>: the second component of the result is the rejection
  that leaves the handler, \<open>None\<close> when the handler completes.
\<close>

definition handleDisconnect ::
  "(LogEntry list \<Rightarrow> string) \<Rightarrow> thrown + unit \<Rightarrow> string \<Rightarrow> nat \<Rightarrow> demo \<Rightarrow> demo \<times> thrown option" where
  "handleDisconnect stringify outcome logId now s =
     (case outcome of
        Inl err \<Rightarrow> (s, Some err)
      | Inr _ \<Rightarrow>
          ((addLog stringify logId now Info ''Disconnected'' None s)
             \<lparr>lastSignature := None, balance := 0\<rparr>, None))"

text \<open>The \<^verbatim>\<open>handleDisconnect\<close> of \<^verbatim>\<open>PlaygroundSection\<close>, on its own log, with its \<^verbatim>\<open>try\<close>.\<close>

definition handleDisconnect_PlaygroundSection ::
  "thrown + unit \<Rightarrow> string \<Rightarrow> nat \<Rightarrow> LogEntry list \<Rightarrow> LogEntry list \<times> thrown option" where
  "handleDisconnect_PlaygroundSection outcome logId now prev =
     (case outcome of
        Inr _ \<Rightarrow> (addLog_PlaygroundSection logId now Info ''Wallet disconnected'' None prev, None)
      | Inl err \<Rightarrow>
          (addLog_PlaygroundSection logId now Error ''Disconnect failed''
             (Some (error_message err)) prev, None))"

definition sign_blocked :: "sdk \<Rightarrow> demo \<Rightarrow> bool" where
  "sign_blocked k s = (\<not> isConnected k \<or> \<not> signMessage_defined k \<or> isSigningRef s)"

definition handleSignMessage_begin ::
  "(LogEntry list \<Rightarrow> string) \<Rightarrow> sdk \<Rightarrow> string \<Rightarrow> nat \<Rightarrow> demo \<Rightarrow> demo" where
  "handleSignMessage_begin stringify k logId now s =
     (if sign_blocked k s then s
      else addLog stringify logId now Pending ''Requesting signature...'' None
             (s\<lparr>isSigningRef := True, isSigning := True\<rparr>))"




definition send_blocked :: "sdk \<Rightarrow> demo \<Rightarrow> bool" where
  "send_blocked k s =
     (smartWalletPubkey k = None \<or> \<not> signAndSendTransaction_defined k \<or> isSendingRef s)"

definition handleSendTransaction_begin ::
  "(LogEntry list \<Rightarrow> string) \<Rightarrow> sdk \<Rightarrow> string \<Rightarrow> nat \<Rightarrow> demo \<Rightarrow> demo" where
  "handleSendTransaction_begin stringify k logId now s =
     (if send_blocked k s then s
      else addLog stringify logId now Pending ''Sending gasless transaction...'' None
             (s\<lparr>isSendingRef := True, isSending := True\<rparr>))"


definition airdrop_blocked :: "sdk \<Rightarrow> demo \<Rightarrow> bool" where
  "airdrop_blocked k s = (smartWalletPubkey k = None \<or> isAirdropRef s)"

definition handleAirdrop_begin ::
  "(LogEntry list \<Rightarrow> string) \<Rightarrow> sdk \<Rightarrow> string \<Rightarrow> nat \<Rightarrow> demo \<Rightarrow> demo" where
  "handleAirdrop_begin stringify k logId now s =
     (if airdrop_blocked k s then s
      else addLog stringify logId now Pending ''Requesting 1 SOL airdrop from devnet...'' None
             (s\<lparr>isAirdropRef := True, isAirdropping := True\<rparr>))"


record plan =
  plan_id :: string
  plan_name :: string
  priceDisplay :: string

definition PLANS :: "plan list" where
  "PLANS =
     [\<lparr>plan_id = ''starter'', plan_name = ''Starter'', priceDisplay = ''$0.001''\<rparr>,
      \<lparr>plan_id = ''pro'', plan_name = ''Pro'', priceDisplay = ''$0.005''\<rparr>,
      \<lparr>plan_id = ''enterprise'', plan_name = ''Enterprise'', priceDisplay = ''$0.01''\<rparr>]"

definition subscribe_blocked :: "sdk \<Rightarrow> demo \<Rightarrow> bool" where
  "subscribe_blocked k s =
     (smartWalletPubkey k = None \<or> \<not> signAndSendTransaction_defined k \<or> isSubscribingRef s)"

definition handleSubscribe_begin ::
  "(LogEntry list \<Rightarrow> string) \<Rightarrow> sdk \<Rightarrow> string \<Rightarrow> nat \<Rightarrow> string \<Rightarrow> demo \<Rightarrow> demo" where
  "handleSubscribe_begin stringify k logId now planId s =
     (if subscribe_blocked k s then s
      else case find (\<lambda>p. plan_id p = planId) PLANS of
             None \<Rightarrow> s
           | Some plan \<Rightarrow>
               addLog stringify logId now Pending (''Subscribing to '' @ plan_name plan @ ''...'') None
                 (s\<lparr>isSubscribingRef := True, selectedPlan := Some planId, isSubscribing := True\<rparr>))"


text \<open>The entries that a run of ledger operations creates, in call order.\<close>

definition entry_of :: "log_op \<Rightarrow> LogEntry list" where
  "entry_of c = (case c of AddLog logId now type' message' details' \<Rightarrow>
       [\<lparr>id = logId, timestamp = now, type = type', message = message', details = details'\<rparr>]
     | _ \<Rightarrow> [])"

definition appended :: "log_op list \<Rightarrow> LogEntry list" where
  "appended cs = concat (map entry_of cs)"

subsection \<open>Initial state\<close>

text \<open>The initial values of the \<^verbatim>\<open>useState\<close> and \<^verbatim>\<open>useRef\<close> cells, in a browser \<open>w\<close>.\<close>

definition initial_demo ::
  "(string \<Rightarrow> LogEntry list option) \<Rightarrow> (string \<Rightarrow> StoredTransaction list option) \<Rightarrow> browser \<Rightarrow> demo" where
  "initial_demo parse_logs parse_transactions w =
     \<lparr>balance = 0,
      logs = initial_logs parse_logs w,
      transactions = loadFromStorage parse_transactions w STORAGE_KEYS_TRANSACTIONS [],
      isSigning = False, isSending = False, isAirdropping = False, isSubscribing = False,
      lastSignature = None, selectedPlan = None,
      isSigningRef = False, isSendingRef = False, isSubscribingRef = False, isAirdropRef = False,
      localStorage = w, clock = 0, timers = []\<rparr>"

text \<open>A browser with an empty store in which no storage call throws.\<close>

definition empty_browser :: browser where
  "empty_browser =
     \<lparr>window_defined = True, items = Map.empty, getItem_throws = (\<lambda>key. False),
      setItem_throws = (\<lambda>key v. False)\<rparr>"


text \<open>The hook's values once a wallet is connected.\<close>

definition connected_sdk :: sdk where
  "connected_sdk =
     \<lparr>smartWallet = Some ''7xKXtg2CW87d97TXJSDpbD5jBkheTqA83TZRuJosgAsU'', isConnecting = False,
      sdkSigning = False, signMessage_defined = True, signAndSendTransaction_defined = True\<rparr>"

text \<open>
  A browser whose store holds a value under the log key and in which every write throws
  (the quota is exhausted).
\<close>

definition stale_browser :: browser where
  "stale_browser =
     \<lparr>window_defined = True, items = [STORAGE_KEYS_LOGS \<mapsto> ''old''],
      getItem_throws = (\<lambda>key. False), setItem_throws = (\<lambda>key v. True)\<rparr>"

section \<open>Persistent store adapter\<close>

lemma saveToStorage_cases:
  "saveToStorage stringify w key v = w \<or>
   saveToStorage stringify w key v = w\<lparr>items := (items w)(key \<mapsto> stringify v)\<rparr>"
  by (simp add: saveToStorage_def setItem_def)

lemma filter_not_pending_no_pending:
  "filter (\<lambda>l. type l = Pending) (filter (\<lambda>l. type l \<noteq> Pending) xs) = []"
  by (induction xs) auto

lemma saveToStorage_throws:
  "setItem_throws w key (stringify x) \<Longrightarrow> saveToStorage stringify w key x = w"
  by (simp add: saveToStorage_def setItem_def)

text \<open>
  The second half of claim C8 as stated (after a write that throws, a load of the key returns
  the default) fails when the key already holds a value: the value stays and is loaded.
\<close>

theorem failed_save_then_load_counterexample:
  "setItem_throws stale_browser STORAGE_KEYS_LOGS ''new''
   \<and> loadFromStorage (\<lambda>t. if t = ''old'' then Some [''kept''] else None)
        (saveToStorage (\<lambda>xs. ''new'') stale_browser STORAGE_KEYS_LOGS [])
        STORAGE_KEYS_LOGS [] = [''kept'']
   \<and> loadFromStorage (\<lambda>t. if t = ''old'' then Some [''kept''] else None)
        (saveToStorage (\<lambda>xs. ''new'') stale_browser STORAGE_KEYS_LOGS [])
        STORAGE_KEYS_LOGS [] \<noteq> []"
  by (simp add: stale_browser_def saveToStorage_def setItem_def loadFromStorage_def getItem_def)

text \<open>
  Claim C8, amended. \<open>loadFromStorage\<close> is total: it returns the default when there is no
  window, when reading throws, when the key is absent and when parsing fails, and the parsed
  value otherwise. When the write throws, \<open>saveToStorage\<close> returns with the store unchanged,
  so a load of that key afterwards returns what it returned before the save: the default
  when the key held no value.
\<close>

theorem storage_adapter_fallback:
  "(\<not> window_defined w \<longrightarrow> loadFromStorage parse w key d = d)
   \<and> (getItem_throws w key \<longrightarrow> loadFromStorage parse w key d = d)
   \<and> (items w key = None \<longrightarrow> loadFromStorage parse w key d = d)
   \<and> (items w key = Some t \<and> parse t = None \<longrightarrow> loadFromStorage parse w key d = d)
   \<and> (window_defined w \<and> \<not> getItem_throws w key \<and> items w key = Some t \<and> t \<noteq> []
        \<and> parse t = Some v \<longrightarrow> loadFromStorage parse w key d = v)
   \<and> (setItem_throws w key (stringify x) \<longrightarrow>
        saveToStorage stringify w key x = w
        \<and> loadFromStorage parse (saveToStorage stringify w key x) key d
            = loadFromStorage parse w key d)
   \<and> (setItem_throws w key (stringify x) \<and> items w key = None \<longrightarrow>
        loadFromStorage parse (saveToStorage stringify w key x) key d = d)"
proof (intro conjI impI)
  show "\<not> window_defined w \<Longrightarrow> loadFromStorage parse w key d = d"
    by (simp add: loadFromStorage_def)
  show "getItem_throws w key \<Longrightarrow> loadFromStorage parse w key d = d"
    by (simp add: loadFromStorage_def getItem_def)
  show "items w key = None \<Longrightarrow> loadFromStorage parse w key d = d"
    by (simp add: loadFromStorage_def getItem_def)
  show "items w key = Some t \<and> parse t = None \<Longrightarrow> loadFromStorage parse w key d = d"
    by (simp add: loadFromStorage_def getItem_def)
  show "window_defined w \<and> \<not> getItem_throws w key \<and> items w key = Some t \<and> t \<noteq> []
        \<and> parse t = Some v \<Longrightarrow> loadFromStorage parse w key d = v"
    by (simp add: loadFromStorage_def getItem_def)
  show "setItem_throws w key (stringify x) \<Longrightarrow> saveToStorage stringify w key x = w"
    by (rule saveToStorage_throws)
  show "setItem_throws w key (stringify x) \<Longrightarrow>
        loadFromStorage parse (saveToStorage stringify w key x) key d = loadFromStorage parse w key d"
    by (simp add: saveToStorage_throws)
  show "setItem_throws w key (stringify x) \<and> items w key = None \<Longrightarrow>
        loadFromStorage parse (saveToStorage stringify w key x) key d = d"
    by (simp add: saveToStorage_throws loadFromStorage_def getItem_def)
qed

theorem storage_adapter_fallback_witness:
  "setItem_throws stale_browser STORAGE_KEYS_LOGS ''new''
   \<and> items stale_browser STORAGE_KEYS_TRANSACTIONS = None
   \<and> setItem_throws stale_browser STORAGE_KEYS_TRANSACTIONS ''new''
   \<and> saveToStorage (\<lambda>xs. ''new'') stale_browser STORAGE_KEYS_LOGS [''x''] = stale_browser
   \<and> loadFromStorage (\<lambda>t. if t = ''old'' then Some [''kept''] else None)
        (saveToStorage (\<lambda>xs. ''new'') stale_browser STORAGE_KEYS_TRANSACTIONS [''x''])
        STORAGE_KEYS_TRANSACTIONS [''default''] = [''default'']
   \<and> window_defined stale_browser \<and> \<not> getItem_throws stale_browser STORAGE_KEYS_LOGS
   \<and> items stale_browser STORAGE_KEYS_LOGS = Some ''old''
   \<and> loadFromStorage (\<lambda>t. if t = ''old'' then Some [''kept''] else None)
        stale_browser STORAGE_KEYS_LOGS [''default''] = [''kept'']
   \<and> \<not> window_defined (stale_browser\<lparr>window_defined := False\<rparr>)
   \<and> loadFromStorage (\<lambda>t. if t = ''old'' then Some [''kept''] else None)
        (stale_browser\<lparr>window_defined := False\<rparr>) STORAGE_KEYS_LOGS [''default''] = [''default'']"
proof -
  let ?parse = "\<lambda>t. if t = ''old'' then Some [''kept''] else None"
  let ?str = "\<lambda>xs :: string list. ''new''"
  have h1: "setItem_throws stale_browser STORAGE_KEYS_LOGS ''new''"
    and h2: "items stale_browser STORAGE_KEYS_TRANSACTIONS = None"
    and h3: "setItem_throws stale_browser STORAGE_KEYS_TRANSACTIONS ''new''"
    and h4: "window_defined stale_browser" "\<not> getItem_throws stale_browser STORAGE_KEYS_LOGS"
    and h5: "items stale_browser STORAGE_KEYS_LOGS = Some ''old''"
    and h6: "\<not> window_defined (stale_browser\<lparr>window_defined := False\<rparr>)"
    by (simp_all add: stale_browser_def STORAGE_KEYS_LOGS_def STORAGE_KEYS_TRANSACTIONS_def)
  from h1 h2 h3 h4 h5 h6 show ?thesis
    using storage_adapter_fallback
            [of stale_browser ?parse STORAGE_KEYS_LOGS "[''default'']" "''old''" "[''kept'']" ?str "[''x'']"]
          storage_adapter_fallback
            [of stale_browser ?parse STORAGE_KEYS_TRANSACTIONS "[''default'']" "''old''" "[''kept'']" ?str "[''x'']"]
          storage_adapter_fallback
            [of "stale_browser\<lparr>window_defined := False\<rparr>" ?parse STORAGE_KEYS_LOGS "[''default'']"
                "''old''" "[''kept'']" ?str "[''x'']"]
    by simp
qed

section \<open>Log ledger\<close>

lemma save_logs_written:
  assumes "filter (\<lambda>l. type l = Pending) xs = []"
  shows "items (saveToStorage stringify w STORAGE_KEYS_LOGS xs) STORAGE_KEYS_LOGS
           = items w STORAGE_KEYS_LOGS
         \<or> persisted_without_pending stringify (saveToStorage stringify w STORAGE_KEYS_LOGS xs)"
proof -
  from saveToStorage_cases [of stringify w STORAGE_KEYS_LOGS xs]
  show ?thesis
  proof
    assume "saveToStorage stringify w STORAGE_KEYS_LOGS xs = w"
    then show ?thesis by simp
  next
    assume "saveToStorage stringify w STORAGE_KEYS_LOGS xs
              = w\<lparr>items := (items w)(STORAGE_KEYS_LOGS \<mapsto> stringify xs)\<rparr>"
    with assms show ?thesis
      unfolding persisted_without_pending_def by auto
  qed
qed

lemma addLog_localStorage:
  "localStorage (addLog stringify logId now type' message' details' s) =
     saveToStorage stringify (localStorage s) STORAGE_KEYS_LOGS
       (filter (\<lambda>l. type l \<noteq> Pending) (logs (addLog stringify logId now type' message' details' s)))"
  by (simp add: addLog_def Let_def)

lemma clearPendingLogs_localStorage:
  "clearPendingLogs stringify s = s \<or>
   localStorage (clearPendingLogs stringify s) =
     saveToStorage stringify (localStorage s) STORAGE_KEYS_LOGS
       (filter (\<lambda>l. type l \<noteq> Pending) (logs s))"
  by (simp add: clearPendingLogs_def Let_def)

lemma log_step_written:
  "items (localStorage (log_step stringify c s)) STORAGE_KEYS_LOGS
     = items (localStorage s) STORAGE_KEYS_LOGS
   \<or> persisted_without_pending stringify (localStorage (log_step stringify c s))"
proof (cases c)
  case (AddLog logId now type' message' details')
  show ?thesis
    unfolding AddLog log_step.simps addLog_localStorage
    by (rule save_logs_written [OF filter_not_pending_no_pending])
next
  case ClearPendingLogs
  from clearPendingLogs_localStorage [of stringify s] show ?thesis
  proof
    assume "clearPendingLogs stringify s = s"
    then show ?thesis by (simp add: ClearPendingLogs)
  next
    assume h: "localStorage (clearPendingLogs stringify s) =
      saveToStorage stringify (localStorage s) STORAGE_KEYS_LOGS
        (filter (\<lambda>l. type l \<noteq> Pending) (logs s))"
    show ?thesis
      unfolding ClearPendingLogs log_step.simps h
      by (rule save_logs_written [OF filter_not_pending_no_pending])
  qed
next
  case ClearLog
  then show ?thesis by (simp add: clear_log_click_def)
qed

lemma log_run_written:
  "items (localStorage (log_run stringify cs s)) STORAGE_KEYS_LOGS
     = items (localStorage s) STORAGE_KEYS_LOGS
   \<or> persisted_without_pending stringify (localStorage (log_run stringify cs s))"
proof (induction cs arbitrary: s)
  case Nil
  then show ?case by simp
next
  case (Cons c cs)
  let ?s1 = "log_step stringify c s"
  let ?s2 = "log_run stringify cs ?s1"
  from Cons.IH [of ?s1]
  show ?case
  proof
    assume "persisted_without_pending stringify (localStorage ?s2)"
    then show ?thesis by simp
  next
    assume same: "items (localStorage ?s2) STORAGE_KEYS_LOGS
                    = items (localStorage ?s1) STORAGE_KEYS_LOGS"
    from log_step_written [of stringify c s] show ?thesis
    proof
      assume "items (localStorage ?s1) STORAGE_KEYS_LOGS
                = items (localStorage s) STORAGE_KEYS_LOGS"
      with same show ?thesis by simp
    next
      assume "persisted_without_pending stringify (localStorage ?s1)"
      with same have "persisted_without_pending stringify (localStorage ?s2)"
        by (simp add: persisted_without_pending_def)
      then show ?thesis by simp
    qed
  qed
qed

lemma addLog_logs:
  "logs (addLog stringify logId now type' message' details' s) =
     take 30 (\<lparr>id = logId, timestamp = now, type = type', message = message', details = details'\<rparr>
              # (if type' = Pending then logs s else filter (\<lambda>l. type l \<noteq> Pending) (logs s)))"
proof -
  have "filter (\<lambda>l. type l = Pending) (logs s) = [] \<Longrightarrow>
        filter (\<lambda>l. type l \<noteq> Pending) (logs s) = logs s"
    by (induction "logs s") (auto simp: filter_empty_conv filter_id_conv)
  then show ?thesis
    by (cases type') (auto simp: addLog_def Let_def)
qed

lemma addLog_settling_no_pending:
  assumes "type' = Success \<or> type' = Error \<or> type' = Info"
  shows "filter (\<lambda>l. type l = Pending) (logs (addLog stringify logId now type' message' details' s)) = []"
proof -
  have "type' \<noteq> Pending" using assms by auto
  moreover have "\<And>n xs. filter (\<lambda>l. type l = Pending) (take n (filter (\<lambda>l. type l \<noteq> Pending) xs)) = []"
    by (auto simp: filter_empty_conv dest!: in_set_takeD)
  ultimately show ?thesis
    by (simp add: addLog_logs filter_empty_conv take_Cons' ) (auto dest!: in_set_takeD)
qed

text \<open>
  Claim C2. An append of kind success, error or info drops every pending entry of the
  in-memory sequence before it prepends the new entry: the sequence after the append is the
  new entry in front of the old non-pending entries, cut to 30, and holds no pending entry.
\<close>

theorem settling_append_retires_pending:
  assumes "type' = Success \<or> type' = Error \<or> type' = Info"
  shows "logs (addLog stringify logId now type' message' details' s) =
           take 30 (\<lparr>id = logId, timestamp = now, type = type', message = message',
                      details = details'\<rparr>
                    # filter (\<lambda>l. type l \<noteq> Pending) (logs s))
         \<and> filter (\<lambda>l. type l = Pending)
             (logs (addLog stringify logId now type' message' details' s)) = []"
  using assms addLog_settling_no_pending [OF assms, of stringify logId now message' details' s]
  by (auto simp: addLog_logs)

theorem settling_append_retires_pending_witness:
  "(Success = Success \<or> Success = Error \<or> Success = Info)
   \<and> filter (\<lambda>l. type l = Pending)
        (logs (addLog (\<lambda>xs. concat (map LogEntry.id xs)) ''a'' 1 Pending ''Requesting signature...'' None
           (initial_demo (\<lambda>t. None) (\<lambda>t. None) empty_browser))) \<noteq> []
   \<and> logs (addLog (\<lambda>xs. concat (map LogEntry.id xs)) ''b'' 2 Success ''Message signed!'' None
        (addLog (\<lambda>xs. concat (map LogEntry.id xs)) ''a'' 1 Pending ''Requesting signature...'' None
           (initial_demo (\<lambda>t. None) (\<lambda>t. None) empty_browser)))
      = [\<lparr>id = ''b'', timestamp = 2, type = Success, message = ''Message signed!'', details = None\<rparr>]"
  using settling_append_retires_pending
    [of Success "\<lambda>xs. concat (map LogEntry.id xs)" "''b''" 2 "''Message signed!''" None
        "addLog (\<lambda>xs. concat (map LogEntry.id xs)) ''a'' 1 Pending ''Requesting signature...'' None
           (initial_demo (\<lambda>t. None) (\<lambda>t. None) empty_browser)"]
  by (simp add: addLog_def initial_demo_def initial_logs_def loadFromStorage_def getItem_def
      empty_browser_def)

lemma log_step_length:
  "length (logs s) \<le> 30 \<Longrightarrow> length (logs (log_step stringify c s)) \<le> 30"
proof (cases c)
  case (AddLog logId now type' message' details')
  then show ?thesis by (simp add: addLog_logs del: take_Suc_Cons)
next
  case ClearPendingLogs
  assume "length (logs s) \<le> 30"
  moreover have "length (filter (\<lambda>l. type l \<noteq> Pending) (logs s)) \<le> length (logs s)" by simp
  ultimately show ?thesis using ClearPendingLogs
    by (simp add: clearPendingLogs_def Let_def del: length_filter_le)
next
  case ClearLog
  then show ?thesis by (simp add: clear_log_click_def)
qed

lemma log_step_subseq:
  "subseq (logs (log_step stringify c s)) (entry_of c @ logs s)"
proof (cases c)
  case (AddLog logId now type' message' details')
  let ?e = "\<lparr>id = logId, timestamp = now, type = type', message = message', details = details'\<rparr>"
  let ?base = "if type' = Pending then logs s else filter (\<lambda>l. type l \<noteq> Pending) (logs s)"
  have "subseq (take 30 (?e # ?base)) (?e # ?base)" by (rule prefix_imp_subseq [OF take_is_prefix])
  moreover have "subseq (?e # ?base) (?e # logs s)" by auto
  ultimately have "subseq (take 30 (?e # ?base)) (?e # logs s)" by (rule subseq_order.trans)
  then show ?thesis unfolding AddLog log_step.simps addLog_logs entry_of_def by simp
next
  case ClearPendingLogs
  then show ?thesis by (simp add: clearPendingLogs_def Let_def entry_of_def)
next
  case ClearLog
  then show ?thesis by (simp add: clear_log_click_def entry_of_def)
qed

lemma log_run_length:
  "length (logs s) \<le> 30 \<Longrightarrow> length (logs (log_run stringify cs s)) \<le> 30"
  by (induction cs arbitrary: s) (simp_all add: log_step_length)

lemma log_run_subseq:
  "subseq (logs (log_run stringify cs s)) (rev (appended cs) @ logs s)"
proof (induction cs arbitrary: s)
  case Nil
  then show ?case by (simp add: appended_def)
next
  case (Cons c cs)
  have "subseq (logs (log_run stringify cs (log_step stringify c s)))
          (rev (appended cs) @ logs (log_step stringify c s))" by (rule Cons.IH)
  moreover have "subseq (rev (appended cs) @ logs (log_step stringify c s))
          (rev (appended cs) @ (entry_of c @ logs s))"
    using log_step_subseq [of stringify c s] by (simp only: subseq_append')
  ultimately have "subseq (logs (log_run stringify cs (log_step stringify c s)))
          (rev (appended cs) @ (entry_of c @ logs s))" by (rule subseq_order.trans)
  moreover have "rev (appended (c # cs)) = rev (appended cs) @ entry_of c"
    by (cases c) (simp_all add: appended_def entry_of_def)
  ultimately show ?case by simp
qed

lemma log_run_append: "log_run stringify (cs @ ds) s = log_run stringify ds (log_run stringify cs s)"
  by (induction cs arbitrary: s) simp_all

lemma subseq_sorted_wrt:
  "subseq xs ys \<Longrightarrow> sorted_wrt P ys \<Longrightarrow> sorted_wrt P xs"
proof (induction rule: list_emb.induct)
  case (list_emb_Nil ys)
  then show ?case by simp
next
  case (list_emb_Cons xs ys y)
  then show ?case by simp
next
  case (list_emb_Cons2 x y xs ys)
  from list_emb_Cons2.hyps have "set xs \<subseteq> set ys" by (auto dest: list_emb_set)
  with list_emb_Cons2 show ?case by auto
qed

text \<open>
  Claim C3. From a ledger within capacity, after any run of ledger operations the in-memory
  log holds at most 30 entries, and it is a subsequence of the entries created by the run,
  latest call first, followed by the initial entries: the order is newest-first, and when
  the times read by the calls do not decrease, the timestamps in the log do not increase.
  An append puts its entry in front and keeps the first 30, so the entries dropped are the
  oldest.
  The log of \<^verbatim>\<open>PlaygroundSection\<close> prepends and keeps 20, within the same bound.
\<close>

theorem log_ledger_bounded_newest_first:
  assumes "length (logs s) \<le> 30"
  shows "length (logs (log_run stringify cs s)) \<le> 30
       \<and> subseq (logs (log_run stringify cs s)) (rev (appended cs) @ logs s)
       \<and> (sorted_wrt (\<lambda>a b. timestamp b \<le> timestamp a) (rev (appended cs) @ logs s) \<longrightarrow>
           sorted_wrt (\<lambda>a b. timestamp b \<le> timestamp a) (logs (log_run stringify cs s)))
       \<and> logs (log_run stringify (cs @ [AddLog logId now type' message' details']) s) =
           take 30 (\<lparr>id = logId, timestamp = now, type = type', message = message',
                      details = details'\<rparr>
                    # (if type' = Pending then logs (log_run stringify cs s)
                       else filter (\<lambda>l. type l \<noteq> Pending) (logs (log_run stringify cs s))))
       \<and> length (addLog_PlaygroundSection logId now type' message' details' prev) \<le> 30
       \<and> addLog_PlaygroundSection logId now type' message' details' prev =
           take 20 (\<lparr>id = logId, timestamp = now, type = type', message = message',
                      details = details'\<rparr> # prev)"
proof (intro conjI impI)
  show "length (logs (log_run stringify cs s)) \<le> 30"
    using assms by (rule log_run_length)
  show "subseq (logs (log_run stringify cs s)) (rev (appended cs) @ logs s)"
    by (rule log_run_subseq)
  show "sorted_wrt (\<lambda>a b. timestamp b \<le> timestamp a) (rev (appended cs) @ logs s) \<Longrightarrow>
        sorted_wrt (\<lambda>a b. timestamp b \<le> timestamp a) (logs (log_run stringify cs s))"
    by (rule subseq_sorted_wrt [OF log_run_subseq])
  show "logs (log_run stringify (cs @ [AddLog logId now type' message' details']) s) =
           take 30 (\<lparr>id = logId, timestamp = now, type = type', message = message',
                      details = details'\<rparr>
                    # (if type' = Pending then logs (log_run stringify cs s)
                       else filter (\<lambda>l. type l \<noteq> Pending) (logs (log_run stringify cs s))))"
    unfolding log_run_append by (simp only: log_run.simps log_step.simps addLog_logs)
  show "length (addLog_PlaygroundSection logId now type' message' details' prev) \<le> 30"
    by (simp add: addLog_PlaygroundSection_def del: take_Suc_Cons)
  show "addLog_PlaygroundSection logId now type' message' details' prev =
           take 20 (\<lparr>id = logId, timestamp = now, type = type', message = message',
                      details = details'\<rparr> # prev)"
    by (simp add: addLog_PlaygroundSection_def)
qed

theorem log_ledger_bounded_newest_first_witness:
  "length (logs (initial_demo (\<lambda>t. None) (\<lambda>t. None) empty_browser)) \<le> 30
   \<and> logs (log_run (\<lambda>xs. concat (map LogEntry.id xs))
        ([AddLog ''a'' 1 Pending ''Requesting signature...'' None,
          AddLog ''b'' 2 Success ''Message signed!'' None]
         @ [AddLog ''c'' 3 Info ''Sig: abc123...'' None])
        (initial_demo (\<lambda>t. None) (\<lambda>t. None) empty_browser))
      = [\<lparr>id = ''c'', timestamp = 3, type = Info, message = ''Sig: abc123...'', details = None\<rparr>,
         \<lparr>id = ''b'', timestamp = 2, type = Success, message = ''Message signed!'', details = None\<rparr>]
   \<and> sorted_wrt (\<lambda>a b. timestamp b \<le> timestamp a)
        (logs (log_run (\<lambda>xs. concat (map LogEntry.id xs))
           [AddLog ''a'' 1 Pending ''Requesting signature...'' None,
            AddLog ''b'' 2 Success ''Message signed!'' None]
           (initial_demo (\<lambda>t. None) (\<lambda>t. None) empty_browser)))"
  using log_ledger_bounded_newest_first
    [of "initial_demo (\<lambda>t. None) (\<lambda>t. None) empty_browser" "\<lambda>xs. concat (map LogEntry.id xs)"
        "[AddLog ''a'' 1 Pending ''Requesting signature...'' None,
          AddLog ''b'' 2 Success ''Message signed!'' None]"
        "''c''" 3 Info "''Sig: abc123...''" None "[]"]
  by (simp add: addLog_def Let_def initial_demo_def initial_logs_def loadFromStorage_def getItem_def
      empty_browser_def)

text \<open>
  Claim C1. After any run of ledger operations (appends of any kind, clearing of pending
  entries, clearing of the log), the value held under the log key is either the value held
  before the run or the text of a list with no pending entry; a store that holds no pending
  entry under the log key keeps that property.
\<close>

theorem persisted_logs_never_pending:
  "(items (localStorage (log_run stringify cs s)) STORAGE_KEYS_LOGS
      = items (localStorage s) STORAGE_KEYS_LOGS
    \<or> persisted_without_pending stringify (localStorage (log_run stringify cs s)))
   \<and> (persisted_without_pending stringify (localStorage s) \<longrightarrow>
        persisted_without_pending stringify (localStorage (log_run stringify cs s)))"
  using log_run_written [of stringify cs s]
  by (auto simp: persisted_without_pending_def)

theorem persisted_logs_never_pending_witness:
  "persisted_without_pending (\<lambda>xs. concat (map LogEntry.id xs)) empty_browser
   \<and> persisted_without_pending (\<lambda>xs. concat (map LogEntry.id xs))
       (localStorage (log_run (\<lambda>xs. concat (map LogEntry.id xs))
          [AddLog ''a'' 1 Success ''Message signed!'' None,
           AddLog ''b'' 2 Pending ''Requesting signature...'' None]
          (initial_demo (\<lambda>t. None) (\<lambda>t. None) empty_browser)))
   \<and> logs (log_run (\<lambda>xs. concat (map LogEntry.id xs))
          [AddLog ''a'' 1 Success ''Message signed!'' None,
           AddLog ''b'' 2 Pending ''Requesting signature...'' None]
          (initial_demo (\<lambda>t. None) (\<lambda>t. None) empty_browser))
      = [\<lparr>id = ''b'', timestamp = 2, type = Pending, message = ''Requesting signature...'', details = None\<rparr>,
         \<lparr>id = ''a'', timestamp = 1, type = Success, message = ''Message signed!'', details = None\<rparr>]
   \<and> items (localStorage (log_run (\<lambda>xs. concat (map LogEntry.id xs))
          [AddLog ''a'' 1 Success ''Message signed!'' None,
           AddLog ''b'' 2 Pending ''Requesting signature...'' None]
          (initial_demo (\<lambda>t. None) (\<lambda>t. None) empty_browser))) STORAGE_KEYS_LOGS = Some ''a''"
proof -
  have e: "persisted_without_pending (\<lambda>xs. concat (map LogEntry.id xs))
             (localStorage (initial_demo (\<lambda>t. None) (\<lambda>t. None) empty_browser))"
    by (simp add: persisted_without_pending_def initial_demo_def empty_browser_def)
  have w: "localStorage (initial_demo (\<lambda>t. None) (\<lambda>t. None) empty_browser) = empty_browser"
    by (simp add: initial_demo_def)
  from e show ?thesis
    using persisted_logs_never_pending
      [of "\<lambda>xs. concat (map LogEntry.id xs)"
          "[AddLog ''a'' 1 Success ''Message signed!'' None,
            AddLog ''b'' 2 Pending ''Requesting signature...'' None]"
          "initial_demo (\<lambda>t. None) (\<lambda>t. None) empty_browser"]
    unfolding w
    by (simp add: addLog_def initial_demo_def initial_logs_def loadFromStorage_def getItem_def
        empty_browser_def saveToStorage_def setItem_def)
qed

section \<open>Transaction history ledger\<close>







section \<open>Handlers\<close>

text \<open>
  Claim C10. Whatever the log held, after the synchronous part of a connect attempt the
  in-memory log is exactly the attempt's own pending entry: the earlier entries, of every
  kind, are gone.
\<close>

theorem connect_discards_earlier_log:
  "logs (handleConnect_begin stringify logId now s) =
     [\<lparr>id = logId, timestamp = now, type = Pending,
       message = ''Opening passkey authentication...'', details = None\<rparr>]"
  by (simp add: handleConnect_begin_def addLog_def Let_def)

lemma clearPendingLogs_no_pending:
  "filter (\<lambda>l. type l = Pending) (logs (clearPendingLogs stringify s)) = []"
  by (simp add: clearPendingLogs_def Let_def filter_not_pending_no_pending)

lemma connect_settle_no_pending:
  "filter (\<lambda>l. type l = Pending)
     (logs (handleConnect_settle stringify outcome logId1 now1 logId2 now2 s)) = []"
  unfolding handleConnect_settle_def by (rule clearPendingLogs_no_pending)

text \<open>
  Claim C4 at a failing input. The Clear button of the activity log empties the in-memory
  sequence and leaves the store as it is: after one success entry has been logged and the
  log cleared, the log key still holds the entry's text. (The Clear History button, by
  contrast, removes its key: see \<open>clear_history_click\<close>.)
\<close>

theorem clear_leaves_persisted_log:
  "logs (clear_log_click s) = []
   \<and> localStorage (clear_log_click s) = localStorage s
   \<and> logs (clear_log_click (addLog (\<lambda>xs. concat (map LogEntry.id xs)) ''a'' 1 Success
        ''Connected successfully!'' None (initial_demo (\<lambda>t. None) (\<lambda>t. None) empty_browser))) = []
   \<and> items (localStorage (clear_log_click (addLog (\<lambda>xs. concat (map LogEntry.id xs)) ''a'' 1 Success
        ''Connected successfully!'' None (initial_demo (\<lambda>t. None) (\<lambda>t. None) empty_browser))))
       STORAGE_KEYS_LOGS = Some ''a''"
  by (simp add: clear_log_click_def addLog_def Let_def initial_demo_def initial_logs_def
      loadFromStorage_def getItem_def empty_browser_def saveToStorage_def setItem_def)

text \<open>
  Claim C6 at a failing input. When \<^verbatim>\<open>disconnect()\<close> rejects, \<open>handleDisconnect\<close> of
  \<^verbatim>\<open>WalletDemo\<close> logs nothing and the rejection leaves the handler; the handler of the same
  name in \<^verbatim>\<open>PlaygroundSection\<close> catches it and logs an error entry.
\<close>

theorem disconnect_rejection_escapes:
  "handleDisconnect stringify (Inl err) logId now s = (s, Some err)
   \<and> handleDisconnect_PlaygroundSection (Inl err) logId now prev =
       (take 20 (\<lparr>id = logId, timestamp = now, type = Error, message = ''Disconnect failed'',
                   details = Some (error_message err)\<rparr> # prev), None)"
  by (simp add: handleDisconnect_def handleDisconnect_PlaygroundSection_def
      addLog_PlaygroundSection_def)

section \<open>Operation guards\<close>

lemma addLog_refs:
  "isSigningRef (addLog stringify logId now type' message' details' s) = isSigningRef s"
  "isSendingRef (addLog stringify logId now type' message' details' s) = isSendingRef s"
  "isAirdropRef (addLog stringify logId now type' message' details' s) = isAirdropRef s"
  "isSubscribingRef (addLog stringify logId now type' message' details' s) = isSubscribingRef s"
  "timers (addLog stringify logId now type' message' details' s) = timers s"
  "clock (addLog stringify logId now type' message' details' s) = clock s"
  by (simp_all add: addLog_def Let_def)


lemma sign_begin_other_refs:
  "isSendingRef (handleSignMessage_begin stringify k logId now s) = isSendingRef s
   \<and> isAirdropRef (handleSignMessage_begin stringify k logId now s) = isAirdropRef s
   \<and> isSubscribingRef (handleSignMessage_begin stringify k logId now s) = isSubscribingRef s"
  by (simp add: handleSignMessage_begin_def addLog_refs)

lemma send_begin_other_refs:
  "isSigningRef (handleSendTransaction_begin stringify k logId now s) = isSigningRef s
   \<and> isAirdropRef (handleSendTransaction_begin stringify k logId now s) = isAirdropRef s
   \<and> isSubscribingRef (handleSendTransaction_begin stringify k logId now s) = isSubscribingRef s"
  by (simp add: handleSendTransaction_begin_def addLog_refs)

lemma airdrop_begin_other_refs:
  "isSigningRef (handleAirdrop_begin stringify k logId now s) = isSigningRef s
   \<and> isSendingRef (handleAirdrop_begin stringify k logId now s) = isSendingRef s
   \<and> isSubscribingRef (handleAirdrop_begin stringify k logId now s) = isSubscribingRef s"
  by (simp add: handleAirdrop_begin_def addLog_refs)

lemma subscribe_begin_other_refs:
  "isSigningRef (handleSubscribe_begin stringify k logId now planId s) = isSigningRef s
   \<and> isSendingRef (handleSubscribe_begin stringify k logId now planId s) = isSendingRef s
   \<and> isAirdropRef (handleSubscribe_begin stringify k logId now planId s) = isAirdropRef s"
  by (simp add: handleSubscribe_begin_def addLog_refs split: option.split)

lemma addLog_busy:
  "isSigning (addLog stringify logId now type' message' details' s) = isSigning s"
  "isSending (addLog stringify logId now type' message' details' s) = isSending s"
  "isAirdropping (addLog stringify logId now type' message' details' s) = isAirdropping s"
  "isSubscribing (addLog stringify logId now type' message' details' s) = isSubscribing s"
  by (simp_all add: addLog_def Let_def)

lemma sign_begin_sets_and_drops:
  "\<not> sign_blocked k s \<longrightarrow>
     isSigningRef (handleSignMessage_begin stringify k logId now s)
     \<and> isSigning (handleSignMessage_begin stringify k logId now s)
     \<and> handleSignMessage_begin stringify k logId2 now2
          (handleSignMessage_begin stringify k logId now s)
         = handleSignMessage_begin stringify k logId now s"
proof
  assume free: "\<not> sign_blocked k s"
  let ?s1 = "handleSignMessage_begin stringify k logId now s"
  from free have ref: "isSigningRef ?s1" and busy: "isSigning ?s1"
    by (simp_all add: handleSignMessage_begin_def addLog_refs addLog_busy)
  from ref have "sign_blocked k ?s1" by (simp add: sign_blocked_def)
  then have "handleSignMessage_begin stringify k logId2 now2 ?s1 = ?s1"
    by (simp add: handleSignMessage_begin_def [of stringify k logId2 now2])
  with ref busy show "isSigningRef ?s1 \<and> isSigning ?s1
      \<and> handleSignMessage_begin stringify k logId2 now2 ?s1 = ?s1" by simp
qed

lemma send_begin_sets_and_drops:
  "\<not> send_blocked k s \<longrightarrow>
     isSendingRef (handleSendTransaction_begin stringify k logId now s)
     \<and> isSending (handleSendTransaction_begin stringify k logId now s)
     \<and> handleSendTransaction_begin stringify k logId2 now2
          (handleSendTransaction_begin stringify k logId now s)
         = handleSendTransaction_begin stringify k logId now s"
proof
  assume free: "\<not> send_blocked k s"
  let ?s1 = "handleSendTransaction_begin stringify k logId now s"
  from free have ref: "isSendingRef ?s1" and busy: "isSending ?s1"
    by (simp_all add: handleSendTransaction_begin_def addLog_refs addLog_busy)
  from ref have "send_blocked k ?s1" by (simp add: send_blocked_def)
  then have "handleSendTransaction_begin stringify k logId2 now2 ?s1 = ?s1"
    by (simp add: handleSendTransaction_begin_def [of stringify k logId2 now2])
  with ref busy show "isSendingRef ?s1 \<and> isSending ?s1
      \<and> handleSendTransaction_begin stringify k logId2 now2 ?s1 = ?s1" by simp
qed

lemma airdrop_begin_sets_and_drops:
  "\<not> airdrop_blocked k s \<longrightarrow>
     isAirdropRef (handleAirdrop_begin stringify k logId now s)
     \<and> isAirdropping (handleAirdrop_begin stringify k logId now s)
     \<and> handleAirdrop_begin stringify k logId2 now2
          (handleAirdrop_begin stringify k logId now s)
         = handleAirdrop_begin stringify k logId now s"
proof
  assume free: "\<not> airdrop_blocked k s"
  let ?s1 = "handleAirdrop_begin stringify k logId now s"
  from free have ref: "isAirdropRef ?s1" and busy: "isAirdropping ?s1"
    by (simp_all add: handleAirdrop_begin_def addLog_refs addLog_busy)
  from ref have "airdrop_blocked k ?s1" by (simp add: airdrop_blocked_def)
  then have "handleAirdrop_begin stringify k logId2 now2 ?s1 = ?s1"
    by (simp add: handleAirdrop_begin_def [of stringify k logId2 now2])
  with ref busy show "isAirdropRef ?s1 \<and> isAirdropping ?s1
      \<and> handleAirdrop_begin stringify k logId2 now2 ?s1 = ?s1" by simp
qed

lemma subscribe_begin_sets_and_drops:
  "\<not> subscribe_blocked k s \<and> find (\<lambda>p. plan_id p = planId) PLANS \<noteq> None \<longrightarrow>
     isSubscribingRef (handleSubscribe_begin stringify k logId now planId s)
     \<and> isSubscribing (handleSubscribe_begin stringify k logId now planId s)
     \<and> handleSubscribe_begin stringify k logId2 now2 planId2
          (handleSubscribe_begin stringify k logId now planId s)
         = handleSubscribe_begin stringify k logId now planId s"
proof
  assume h: "\<not> subscribe_blocked k s \<and> find (\<lambda>p. plan_id p = planId) PLANS \<noteq> None"
  let ?s1 = "handleSubscribe_begin stringify k logId now planId s"
  from h obtain plan where "find (\<lambda>p. plan_id p = planId) PLANS = Some plan" by auto
  with h have ref: "isSubscribingRef ?s1" and busy: "isSubscribing ?s1"
    by (simp_all add: handleSubscribe_begin_def addLog_refs addLog_busy)
  from ref have "subscribe_blocked k ?s1" by (simp add: subscribe_blocked_def)
  then have "handleSubscribe_begin stringify k logId2 now2 planId2 ?s1 = ?s1"
    by (simp add: handleSubscribe_begin_def [of stringify k logId2 now2 planId2])
  with ref busy show "isSubscribingRef ?s1 \<and> isSubscribing ?s1
      \<and> handleSubscribe_begin stringify k logId2 now2 planId2 ?s1 = ?s1" by simp
qed

text \<open>
  Claim C5 as stated fails for connect: \<open>handleConnect\<close> reads no guard, so a second
  connect invoked while the first is still awaiting the SDK replaces the log with a pending
  entry of its own and changes the state.
\<close>

theorem connect_unguarded_counterexample:
  "logs (handleConnect_begin (\<lambda>xs. concat (map LogEntry.id xs)) ''a'' 1
        (initial_demo (\<lambda>t. None) (\<lambda>t. None) empty_browser))
      = [\<lparr>id = ''a'', timestamp = 1, type = Pending,
          message = ''Opening passkey authentication...'', details = None\<rparr>]
   \<and> logs (handleConnect_begin (\<lambda>xs. concat (map LogEntry.id xs)) ''b'' 2
        (handleConnect_begin (\<lambda>xs. concat (map LogEntry.id xs)) ''a'' 1
           (initial_demo (\<lambda>t. None) (\<lambda>t. None) empty_browser)))
      = [\<lparr>id = ''b'', timestamp = 2, type = Pending,
          message = ''Opening passkey authentication...'', details = None\<rparr>]
   \<and> handleConnect_begin (\<lambda>xs. concat (map LogEntry.id xs)) ''b'' 2
        (handleConnect_begin (\<lambda>xs. concat (map LogEntry.id xs)) ''a'' 1
           (initial_demo (\<lambda>t. None) (\<lambda>t. None) empty_browser))
      \<noteq> handleConnect_begin (\<lambda>xs. concat (map LogEntry.id xs)) ''a'' 1
           (initial_demo (\<lambda>t. None) (\<lambda>t. None) empty_browser)"
proof -
  let ?f = "\<lambda>xs. concat (map LogEntry.id xs)"
  let ?s0 = "initial_demo (\<lambda>t. None) (\<lambda>t. None) empty_browser"
  have a: "logs (handleConnect_begin ?f ''a'' 1 ?s0)
      = [\<lparr>id = ''a'', timestamp = 1, type = Pending,
          message = ''Opening passkey authentication...'', details = None\<rparr>]"
    by (simp add: handleConnect_begin_def addLog_def Let_def)
  have b: "logs (handleConnect_begin ?f ''b'' 2 (handleConnect_begin ?f ''a'' 1 ?s0))
      = [\<lparr>id = ''b'', timestamp = 2, type = Pending,
          message = ''Opening passkey authentication...'', details = None\<rparr>]"
    by (simp add: handleConnect_begin_def addLog_def Let_def)
  have "logs (handleConnect_begin ?f ''b'' 2 (handleConnect_begin ?f ''a'' 1 ?s0))
          \<noteq> logs (handleConnect_begin ?f ''a'' 1 ?s0)"
    unfolding a b by simp
  then have c: "handleConnect_begin ?f ''b'' 2 (handleConnect_begin ?f ''a'' 1 ?s0)
          \<noteq> handleConnect_begin ?f ''a'' 1 ?s0" by auto
  from a b c show ?thesis by blast
qed

text \<open>
  Claim C5, amended. Sign, send, airdrop and subscribe each have a guard ref of their own:
  an invocation that finds its ref set returns with the state unchanged, so it appends no
  log entry; an invocation that is not blocked sets its ref and its busy flag before the
  awaited call, so that a second invocation of the same handler on the state it leaves is
  dropped; a handler leaves the refs of the other three actions as they are, and whether
  it is blocked depends on the wallet and on its own ref only. Connect has no such guard:
  every invocation of \<open>handleConnect\<close> empties the log and appends its pending entry; only
  its button is disabled while the SDK reports \<open>isConnecting\<close>, so that a click then runs
  no handler.
\<close>

theorem guarded_actions_drop_duplicates:
  "(isSigningRef s \<longrightarrow> handleSignMessage_begin stringify k logId now s = s)
   \<and> (isSendingRef s \<longrightarrow> handleSendTransaction_begin stringify k logId now s = s)
   \<and> (isAirdropRef s \<longrightarrow> handleAirdrop_begin stringify k logId now s = s)
   \<and> (isSubscribingRef s \<longrightarrow> handleSubscribe_begin stringify k logId now planId s = s)
   \<and> (isSendingRef (handleSignMessage_begin stringify k logId now s) = isSendingRef s
      \<and> isAirdropRef (handleSignMessage_begin stringify k logId now s) = isAirdropRef s
      \<and> isSubscribingRef (handleSignMessage_begin stringify k logId now s) = isSubscribingRef s)
   \<and> (isSigningRef (handleSendTransaction_begin stringify k logId now s) = isSigningRef s
      \<and> isAirdropRef (handleSendTransaction_begin stringify k logId now s) = isAirdropRef s
      \<and> isSubscribingRef (handleSendTransaction_begin stringify k logId now s) = isSubscribingRef s)
   \<and> (isSigningRef (handleAirdrop_begin stringify k logId now s) = isSigningRef s
      \<and> isSendingRef (handleAirdrop_begin stringify k logId now s) = isSendingRef s
      \<and> isSubscribingRef (handleAirdrop_begin stringify k logId now s) = isSubscribingRef s)
   \<and> (isSigningRef (handleSubscribe_begin stringify k logId now planId s) = isSigningRef s
      \<and> isSendingRef (handleSubscribe_begin stringify k logId now planId s) = isSendingRef s
      \<and> isAirdropRef (handleSubscribe_begin stringify k logId now planId s) = isAirdropRef s)
   \<and> sign_blocked k s = (\<not> isConnected k \<or> \<not> signMessage_defined k \<or> isSigningRef s)
   \<and> send_blocked k s = (\<not> isConnected k \<or> \<not> signAndSendTransaction_defined k \<or> isSendingRef s)
   \<and> airdrop_blocked k s = (\<not> isConnected k \<or> isAirdropRef s)
   \<and> subscribe_blocked k s
        = (\<not> isConnected k \<or> \<not> signAndSendTransaction_defined k \<or> isSubscribingRef s)
   \<and> logs (handleConnect_begin stringify logId now s)
        = [\<lparr>id = logId, timestamp = now, type = Pending,
            message = ''Opening passkey authentication...'', details = None\<rparr>]
   \<and> (isConnecting k \<longrightarrow> connect_button_click stringify k logId now s = s)
   \<and> (\<not> sign_blocked k s \<longrightarrow>
        isSigningRef (handleSignMessage_begin stringify k logId now s)
        \<and> isSigning (handleSignMessage_begin stringify k logId now s)
        \<and> handleSignMessage_begin stringify k logId2 now2
             (handleSignMessage_begin stringify k logId now s)
            = handleSignMessage_begin stringify k logId now s)
   \<and> (\<not> send_blocked k s \<longrightarrow>
        isSendingRef (handleSendTransaction_begin stringify k logId now s)
        \<and> isSending (handleSendTransaction_begin stringify k logId now s)
        \<and> handleSendTransaction_begin stringify k logId2 now2
             (handleSendTransaction_begin stringify k logId now s)
            = handleSendTransaction_begin stringify k logId now s)
   \<and> (\<not> airdrop_blocked k s \<longrightarrow>
        isAirdropRef (handleAirdrop_begin stringify k logId now s)
        \<and> isAirdropping (handleAirdrop_begin stringify k logId now s)
        \<and> handleAirdrop_begin stringify k logId2 now2
             (handleAirdrop_begin stringify k logId now s)
            = handleAirdrop_begin stringify k logId now s)
   \<and> (\<not> subscribe_blocked k s \<and> find (\<lambda>p. plan_id p = planId) PLANS \<noteq> None \<longrightarrow>
        isSubscribingRef (handleSubscribe_begin stringify k logId now planId s)
        \<and> isSubscribing (handleSubscribe_begin stringify k logId now planId s)
        \<and> handleSubscribe_begin stringify k logId2 now2 planId2
             (handleSubscribe_begin stringify k logId now planId s)
            = handleSubscribe_begin stringify k logId now planId s)"
proof -
  have pk: "(smartWalletPubkey k = None) = (\<not> isConnected k)"
    by (simp add: smartWalletPubkey_def smartWalletAddress_def isConnected_def split: option.split)
  have g1: "isSigningRef s \<longrightarrow> handleSignMessage_begin stringify k logId now s = s"
    by (simp add: handleSignMessage_begin_def sign_blocked_def)
  have g2: "isSendingRef s \<longrightarrow> handleSendTransaction_begin stringify k logId now s = s"
    by (simp add: handleSendTransaction_begin_def send_blocked_def)
  have g3: "isAirdropRef s \<longrightarrow> handleAirdrop_begin stringify k logId now s = s"
    by (simp add: handleAirdrop_begin_def airdrop_blocked_def)
  have g4: "isSubscribingRef s \<longrightarrow> handleSubscribe_begin stringify k logId now planId s = s"
    by (simp add: handleSubscribe_begin_def subscribe_blocked_def)
  have b1: "sign_blocked k s = (\<not> isConnected k \<or> \<not> signMessage_defined k \<or> isSigningRef s)"
    by (simp add: sign_blocked_def)
  have b2: "send_blocked k s
              = (\<not> isConnected k \<or> \<not> signAndSendTransaction_defined k \<or> isSendingRef s)"
    by (simp add: send_blocked_def pk)
  have b3: "airdrop_blocked k s = (\<not> isConnected k \<or> isAirdropRef s)"
    by (simp add: airdrop_blocked_def pk)
  have b4: "subscribe_blocked k s
              = (\<not> isConnected k \<or> \<not> signAndSendTransaction_defined k \<or> isSubscribingRef s)"
    by (simp add: subscribe_blocked_def pk)
  have c: "logs (handleConnect_begin stringify logId now s)
        = [\<lparr>id = logId, timestamp = now, type = Pending,
            message = ''Opening passkey authentication...'', details = None\<rparr>]"
    by (simp add: handleConnect_begin_def addLog_def Let_def)
  have d: "isConnecting k \<longrightarrow> connect_button_click stringify k logId now s = s"
    by (simp add: connect_button_click_def)
  have a1: "\<not> sign_blocked k s \<longrightarrow>
        isSigningRef (handleSignMessage_begin stringify k logId now s)
        \<and> isSigning (handleSignMessage_begin stringify k logId now s)
        \<and> handleSignMessage_begin stringify k logId2 now2
             (handleSignMessage_begin stringify k logId now s)
            = handleSignMessage_begin stringify k logId now s"
    by (rule sign_begin_sets_and_drops)
  have a2: "\<not> send_blocked k s \<longrightarrow>
        isSendingRef (handleSendTransaction_begin stringify k logId now s)
        \<and> isSending (handleSendTransaction_begin stringify k logId now s)
        \<and> handleSendTransaction_begin stringify k logId2 now2
             (handleSendTransaction_begin stringify k logId now s)
            = handleSendTransaction_begin stringify k logId now s"
    by (rule send_begin_sets_and_drops)
  have a3: "\<not> airdrop_blocked k s \<longrightarrow>
        isAirdropRef (handleAirdrop_begin stringify k logId now s)
        \<and> isAirdropping (handleAirdrop_begin stringify k logId now s)
        \<and> handleAirdrop_begin stringify k logId2 now2
             (handleAirdrop_begin stringify k logId now s)
            = handleAirdrop_begin stringify k logId now s"
    by (rule airdrop_begin_sets_and_drops)
  have a4: "\<not> subscribe_blocked k s \<and> find (\<lambda>p. plan_id p = planId) PLANS \<noteq> None \<longrightarrow>
        isSubscribingRef (handleSubscribe_begin stringify k logId now planId s)
        \<and> isSubscribing (handleSubscribe_begin stringify k logId now planId s)
        \<and> handleSubscribe_begin stringify k logId2 now2 planId2
             (handleSubscribe_begin stringify k logId now planId s)
            = handleSubscribe_begin stringify k logId now planId s"
    by (rule subscribe_begin_sets_and_drops)
  note frames =
    sign_begin_other_refs [of stringify k logId now s, THEN conjunct1]
    sign_begin_other_refs [of stringify k logId now s, THEN conjunct2, THEN conjunct1]
    sign_begin_other_refs [of stringify k logId now s, THEN conjunct2, THEN conjunct2]
    send_begin_other_refs [of stringify k logId now s, THEN conjunct1]
    send_begin_other_refs [of stringify k logId now s, THEN conjunct2, THEN conjunct1]
    send_begin_other_refs [of stringify k logId now s, THEN conjunct2, THEN conjunct2]
    airdrop_begin_other_refs [of stringify k logId now s, THEN conjunct1]
    airdrop_begin_other_refs [of stringify k logId now s, THEN conjunct2, THEN conjunct1]
    airdrop_begin_other_refs [of stringify k logId now s, THEN conjunct2, THEN conjunct2]
    subscribe_begin_other_refs [of stringify k logId now planId s, THEN conjunct1]
    subscribe_begin_other_refs [of stringify k logId now planId s, THEN conjunct2, THEN conjunct1]
    subscribe_begin_other_refs [of stringify k logId now planId s, THEN conjunct2, THEN conjunct2]
  show ?thesis
    by (intro conjI; rule g1 g2 g3 g4 b1 b2 b3 b4 c d a1 a2 a3 a4 frames)
qed

theorem guarded_actions_drop_duplicates_witness:
  "\<not> sign_blocked connected_sdk (initial_demo (\<lambda>t. None) (\<lambda>t. None) empty_browser)
   \<and> isSigningRef
        (handleSignMessage_begin (\<lambda>xs. concat (map LogEntry.id xs)) connected_sdk ''a'' 1
           (initial_demo (\<lambda>t. None) (\<lambda>t. None) empty_browser))
   \<and> handleSignMessage_begin (\<lambda>xs. concat (map LogEntry.id xs)) connected_sdk ''b'' 2
        (handleSignMessage_begin (\<lambda>xs. concat (map LogEntry.id xs)) connected_sdk ''a'' 1
           (initial_demo (\<lambda>t. None) (\<lambda>t. None) empty_browser))
      = handleSignMessage_begin (\<lambda>xs. concat (map LogEntry.id xs)) connected_sdk ''a'' 1
           (initial_demo (\<lambda>t. None) (\<lambda>t. None) empty_browser)
   \<and> logs (handleSignMessage_begin (\<lambda>xs. concat (map LogEntry.id xs)) connected_sdk ''b'' 2
        (handleSignMessage_begin (\<lambda>xs. concat (map LogEntry.id xs)) connected_sdk ''a'' 1
           (initial_demo (\<lambda>t. None) (\<lambda>t. None) empty_browser)))
      = [\<lparr>id = ''a'', timestamp = 1, type = Pending, message = ''Requesting signature...'',
          details = None\<rparr>]
   \<and> \<not> send_blocked connected_sdk (initial_demo (\<lambda>t. None) (\<lambda>t. None) empty_browser)
   \<and> isSendingRef
        (handleSendTransaction_begin (\<lambda>xs. concat (map LogEntry.id xs)) connected_sdk ''a'' 1
           (initial_demo (\<lambda>t. None) (\<lambda>t. None) empty_browser))
   \<and> handleSendTransaction_begin (\<lambda>xs. concat (map LogEntry.id xs)) connected_sdk ''b'' 2
        (handleSendTransaction_begin (\<lambda>xs. concat (map LogEntry.id xs)) connected_sdk ''a'' 1
           (initial_demo (\<lambda>t. None) (\<lambda>t. None) empty_browser))
      = handleSendTransaction_begin (\<lambda>xs. concat (map LogEntry.id xs)) connected_sdk ''a'' 1
           (initial_demo (\<lambda>t. None) (\<lambda>t. None) empty_browser)
   \<and> \<not> airdrop_blocked connected_sdk (initial_demo (\<lambda>t. None) (\<lambda>t. None) empty_browser)
   \<and> isAirdropRef
        (handleAirdrop_begin (\<lambda>xs. concat (map LogEntry.id xs)) connected_sdk ''a'' 1
           (initial_demo (\<lambda>t. None) (\<lambda>t. None) empty_browser))
   \<and> handleAirdrop_begin (\<lambda>xs. concat (map LogEntry.id xs)) connected_sdk ''b'' 2
        (handleAirdrop_begin (\<lambda>xs. concat (map LogEntry.id xs)) connected_sdk ''a'' 1
           (initial_demo (\<lambda>t. None) (\<lambda>t. None) empty_browser))
      = handleAirdrop_begin (\<lambda>xs. concat (map LogEntry.id xs)) connected_sdk ''a'' 1
           (initial_demo (\<lambda>t. None) (\<lambda>t. None) empty_browser)
   \<and> \<not> subscribe_blocked connected_sdk (initial_demo (\<lambda>t. None) (\<lambda>t. None) empty_browser)
   \<and> find (\<lambda>p. plan_id p = ''pro'') PLANS \<noteq> None
   \<and> isSubscribingRef
        (handleSubscribe_begin (\<lambda>xs. concat (map LogEntry.id xs)) connected_sdk ''a'' 1 ''pro''
           (initial_demo (\<lambda>t. None) (\<lambda>t. None) empty_browser))
   \<and> handleSubscribe_begin (\<lambda>xs. concat (map LogEntry.id xs)) connected_sdk ''b'' 2 ''starter''
        (handleSubscribe_begin (\<lambda>xs. concat (map LogEntry.id xs)) connected_sdk ''a'' 1 ''pro''
           (initial_demo (\<lambda>t. None) (\<lambda>t. None) empty_browser))
      = handleSubscribe_begin (\<lambda>xs. concat (map LogEntry.id xs)) connected_sdk ''a'' 1 ''pro''
           (initial_demo (\<lambda>t. None) (\<lambda>t. None) empty_browser)
   \<and> isConnecting (connected_sdk\<lparr>smartWallet := None, isConnecting := True\<rparr>)
   \<and> connect_button_click (\<lambda>xs. concat (map LogEntry.id xs))
        (connected_sdk\<lparr>smartWallet := None, isConnecting := True\<rparr>) ''a'' 1
        (initial_demo (\<lambda>t. None) (\<lambda>t. None) empty_browser)
      = initial_demo (\<lambda>t. None) (\<lambda>t. None) empty_browser"
proof -
  let ?f = "\<lambda>xs. concat (map LogEntry.id xs)"
  let ?s0 = "initial_demo (\<lambda>t. None) (\<lambda>t. None) empty_browser"
  let ?sign = "handleSignMessage_begin ?f connected_sdk ''a'' 1 ?s0"
  let ?send = "handleSendTransaction_begin ?f connected_sdk ''a'' 1 ?s0"
  let ?drop = "handleAirdrop_begin ?f connected_sdk ''a'' 1 ?s0"
  let ?sub = "handleSubscribe_begin ?f connected_sdk ''a'' 1 ''pro'' ?s0"
  have free: "\<not> sign_blocked connected_sdk ?s0" "\<not> send_blocked connected_sdk ?s0"
    "\<not> airdrop_blocked connected_sdk ?s0" "\<not> subscribe_blocked connected_sdk ?s0"
    by (simp_all add: sign_blocked_def send_blocked_def airdrop_blocked_def subscribe_blocked_def
        smartWalletPubkey_def smartWalletAddress_def isConnected_def connected_sdk_def
        initial_demo_def)
  have plan: "find (\<lambda>p. plan_id p = ''pro'') PLANS \<noteq> None"
    by (simp add: PLANS_def)
  have c: "isConnecting (connected_sdk\<lparr>smartWallet := None, isConnecting := True\<rparr>)"
    by simp
  note first = guarded_actions_drop_duplicates
      [of ?s0 ?f connected_sdk "''a''" 1 "''pro''" "''b''" 2 "''starter''"]
  from first free(1) have sign: "isSigningRef ?sign" by blast
  from first free(2) have send: "isSendingRef ?send" by blast
  from first free(3) have drop: "isAirdropRef ?drop" by blast
  from first free(4) plan have sub: "isSubscribingRef ?sub" by blast
  from sign guarded_actions_drop_duplicates [of ?sign ?f connected_sdk "''b''" 2 "''pro''"]
  have sign2: "handleSignMessage_begin ?f connected_sdk ''b'' 2 ?sign = ?sign" by blast
  from send guarded_actions_drop_duplicates [of ?send ?f connected_sdk "''b''" 2 "''pro''"]
  have send2: "handleSendTransaction_begin ?f connected_sdk ''b'' 2 ?send = ?send" by blast
  from drop guarded_actions_drop_duplicates [of ?drop ?f connected_sdk "''b''" 2 "''pro''"]
  have drop2: "handleAirdrop_begin ?f connected_sdk ''b'' 2 ?drop = ?drop" by blast
  from sub guarded_actions_drop_duplicates [of ?sub ?f connected_sdk "''b''" 2 "''starter''"]
  have sub2: "handleSubscribe_begin ?f connected_sdk ''b'' 2 ''starter'' ?sub = ?sub" by blast
  have "logs ?sign = [\<lparr>id = ''a'', timestamp = 1, type = Pending,
          message = ''Requesting signature...'', details = None\<rparr>]"
    using free(1)
    by (simp add: handleSignMessage_begin_def addLog_def Let_def initial_demo_def initial_logs_def
        loadFromStorage_def getItem_def empty_browser_def)
  with sign2 have logs2: "logs (handleSignMessage_begin ?f connected_sdk ''b'' 2 ?sign)
      = [\<lparr>id = ''a'', timestamp = 1, type = Pending, message = ''Requesting signature...'',
          details = None\<rparr>]" by simp
  have button: "connect_button_click ?f
        (connected_sdk\<lparr>smartWallet := None, isConnecting := True\<rparr>) ''a'' 1 ?s0 = ?s0"
    using c guarded_actions_drop_duplicates
      [of ?s0 ?f "connected_sdk\<lparr>smartWallet := None, isConnecting := True\<rparr>" "''a''" 1 "''pro''"]
    by blast
  from free plan c sign send drop sub sign2 send2 drop2 sub2 logs2 button
  show ?thesis by (simp only: simp_thms)
qed












end
